theory Spec2Isabelle
  imports Main "HOL-Library.AList" "HOL-Library.Char_ord" "HOL-Library.List_Lexorder"
    "HOL-Library.Sublist"
begin

section \<open>The dog service of task-fastapi/main.py\<close>

subsection \<open>Data model\<close>

text \<open>
  \<^verbatim>\<open>class DogType(str, Enum)\<close>: three members, each of which is also the str of its
  value, so that \<^verbatim>\<open>DogType.terrier == "terrier"\<close> holds in Python.
\<close>

datatype DogType = terrier | bulldog | dalmatian

fun DogType_value :: "DogType \<Rightarrow> string" where
  "DogType_value terrier = ''terrier''"
| "DogType_value bulldog = ''bulldog''"
| "DogType_value dalmatian = ''dalmatian''"

text \<open>
  The values an attribute of a live \<^verbatim>\<open>Dog\<close> instance can hold. Pydantic checks the
  declared field types when an instance is constructed, not when an attribute is assigned
  (\<^verbatim>\<open>validate_assignment\<close> is off by default), so after \<^verbatim>\<open>setattr\<close> in
  \<^verbatim>\<open>update_dog\<close> a field declared \<^verbatim>\<open>Optional[int]\<close>, \<^verbatim>\<open>DogType\<close> or \<^verbatim>\<open>bool\<close>
  may hold the str of the patch.
\<close>

datatype pyval = VNone | VInt int | VStr string | VBool bool | VEnum DogType

text \<open>
  \<^verbatim>\<open>class Dog(BaseModel)\<close>. The four fields whose declared type is not a str are type
  parameters: a request body that passed validation carries the declared types
  (\<open>Dog_model\<close>; \<^verbatim>\<open>age\<close> has \<^verbatim>\<open>ge=0\<close>), an instance held in \<^verbatim>\<open>DB_DOGS\<close> carries
  whatever was last assigned (\<open>Dog_inst\<close>). \<^verbatim>\<open>name\<close> and \<^verbatim>\<open>owner\<close> only ever receive
  a str from a patch, so they keep their declared types.
\<close>

record ('pk, 'kind, 'age, 'vac) Dog =
  pk :: 'pk
  name :: string
  kind :: 'kind
  age :: 'age
  owner :: "string option"
  vaccinated :: 'vac

type_synonym Dog_model = "(int option, DogType, nat option, bool) Dog"
type_synonym Dog_inst = "(pyval, pyval, pyval, pyval) Dog"

text \<open>
  \<^verbatim>\<open>DB_DOGS = {}\<close>: a dict, which keeps its keys in insertion order. The keys are the
  ints that \<^verbatim>\<open>create_dog\<close> stores under.
\<close>

type_synonym DB = "(int \<times> Dog_inst) list"

text \<open>
  The exceptions a handler can leave with: the two \<^verbatim>\<open>HTTPException\<close>s the source raises
  (the 400 carries the offending keys in its detail), and the Python errors that escape a
  handler uncaught.
\<close>

datatype error =
  HTTP_404_NOT_FOUND
  | HTTP_400_BAD_REQUEST "string list"
  | TypeError
  | ValueError
  | KeyError

subsection \<open>Python operations used by the handlers\<close>

text \<open>
  \<^verbatim>\<open>a > b\<close>: ints (and bools, which are ints) compare with each other, strs (and members
  of the str enum) compare with each other by code point, anything else raises TypeError.
\<close>

fun as_int :: "pyval \<Rightarrow> int option" where
  "as_int (VInt n) = Some n"
| "as_int (VBool b) = Some (if b then 1 else 0)"
| "as_int _ = None"

fun as_str :: "pyval \<Rightarrow> string option" where
  "as_str (VStr s) = Some s"
| "as_str (VEnum k) = Some (DogType_value k)"
| "as_str _ = None"

definition py_gt :: "pyval \<Rightarrow> pyval \<Rightarrow> error + bool" where
  "py_gt a b =
     (case (as_int a, as_int b) of
        (Some x, Some y) \<Rightarrow> Inr (y < x)
      | _ \<Rightarrow>
        (case (as_str a, as_str b) of
           (Some s, Some t) \<Rightarrow> Inr (t < s)
         | _ \<Rightarrow> Inl TypeError))"

text \<open>
  \<^verbatim>\<open>max(iterable)\<close>: the first item is the candidate, every later item replaces it when
  \<^verbatim>\<open>item > candidate\<close>; an empty iterable raises ValueError.
\<close>

fun py_max_from :: "pyval \<Rightarrow> pyval list \<Rightarrow> error + pyval" where
  "py_max_from m [] = Inr m"
| "py_max_from m (x # xs) =
     (case py_gt x m of
        Inl e \<Rightarrow> Inl e
      | Inr b \<Rightarrow> py_max_from (if b then x else m) xs)"

definition py_max :: "pyval list \<Rightarrow> error + pyval" where
  "py_max xs = (case xs of [] \<Rightarrow> Inl ValueError | x # xs' \<Rightarrow> py_max_from x xs')"

text \<open>\<^verbatim>\<open>m + 1\<close>: defined on ints; a str or None operand raises TypeError.\<close>

definition py_add1 :: "pyval \<Rightarrow> error + int" where
  "py_add1 m = (case as_int m of Some n \<Rightarrow> Inr (n + 1) | None \<Rightarrow> Inl TypeError)"

text \<open>
  \<^verbatim>\<open>dog.kind == kind\<close> with \<^verbatim>\<open>kind\<close> a \<^verbatim>\<open>DogType\<close>: a member equals itself and the str
  of its value, and nothing else.
\<close>

fun kind_eq :: "pyval \<Rightarrow> DogType \<Rightarrow> bool" where
  "kind_eq (VEnum k') k = (k' = k)"
| "kind_eq (VStr s) k = (s = DogType_value k)"
| "kind_eq _ k = False"

text \<open>
  \<^verbatim>\<open>Dog(pk=pk, name=dog.name, kind=dog.kind, age=dog.age, owner=dog.owner,
  vaccinated=dog.vaccinated)\<close> on the fields of a validated body: the new instance.
\<close>

definition Dog_init :: "int \<Rightarrow> Dog_model \<Rightarrow> Dog_inst" where
  "Dog_init p dog =
     \<lparr>pk = VInt p,
      name = name dog,
      kind = VEnum (kind dog),
      age = (case age dog of None \<Rightarrow> VNone | Some a \<Rightarrow> VInt (int a)),
      owner = owner dog,
      vaccinated = VBool (vaccinated dog)\<rparr>"

text \<open>
  \<^verbatim>\<open>hasattr(current_dog, key)\<close> is true of the six fields and of every attribute the
  instance inherits from \<^verbatim>\<open>BaseModel\<close> and \<^verbatim>\<open>object\<close> (\<^verbatim>\<open>__class__\<close>, \<^verbatim>\<open>__doc__\<close>,
  \<^verbatim>\<open>copy\<close>, \<^verbatim>\<open>dict\<close>, ...). Those classes are not part of this repository, so the
  inherited names are a parameter: a map from each inherited name to what assigning a
  str to it does, which is either to raise, or to succeed and leave the fields alone.
\<close>

datatype setattr_outcome = Assigned | Raises error

type_synonym inherited = "string \<rightharpoonup> setattr_outcome"

definition Dog_fields :: "string list" where
  "Dog_fields = [''pk'', ''name'', ''kind'', ''age'', ''owner'', ''vaccinated'']"

definition hasattr :: "inherited \<Rightarrow> string \<Rightarrow> bool" where
  "hasattr inh key \<longleftrightarrow> key \<in> set Dog_fields \<or> inh key \<noteq> None"

text \<open>
  \<^verbatim>\<open>setattr(current_dog, key, value)\<close> with \<^verbatim>\<open>value\<close> a str. A field takes the str as
  it is. A name that is no attribute at all is refused by pydantic with ValueError.
\<close>

definition setattr :: "inherited \<Rightarrow> Dog_inst \<Rightarrow> string \<Rightarrow> string \<Rightarrow> error + Dog_inst" where
  "setattr inh d key v =
     (if key = ''pk'' then Inr (d\<lparr>pk := VStr v\<rparr>)
      else if key = ''name'' then Inr (d\<lparr>name := v\<rparr>)
      else if key = ''kind'' then Inr (d\<lparr>kind := VStr v\<rparr>)
      else if key = ''age'' then Inr (d\<lparr>age := VStr v\<rparr>)
      else if key = ''owner'' then Inr (d\<lparr>owner := Some v\<rparr>)
      else if key = ''vaccinated'' then Inr (d\<lparr>vaccinated := VStr v\<rparr>)
      else (case inh key of
              Some Assigned \<Rightarrow> Inr d
            | Some (Raises e) \<Rightarrow> Inl e
            | None \<Rightarrow> Inl ValueError))"

subsection \<open>\<^verbatim>\<open>str.lower\<close>\<close>

















subsection \<open>The handlers\<close>

text \<open>\<^verbatim>\<open>root\<close>: \<^verbatim>\<open>list(DB_DOGS.values())\<close>.\<close>

definition root :: "DB \<Rightarrow> Dog_inst list" where
  "root db = map snd db"

text \<open>\<^verbatim>\<open>get_dogs\<close>: \<^verbatim>\<open>[dog for dog in DB_DOGS.values() if dog.kind == kind]\<close>.\<close>

definition get_dogs :: "DB \<Rightarrow> DogType \<Rightarrow> Dog_inst list" where
  "get_dogs db k = [dog \<leftarrow> map snd db. kind_eq (kind dog) k]"

text \<open>
  The id \<^verbatim>\<open>create_dog\<close> computes when the body has none:
  \<^verbatim>\<open>max(dog.pk for dog in DB_DOGS.values()) + 1\<close> if \<^verbatim>\<open>DB_DOGS\<close> is not empty, else 1.
\<close>

definition next_pk :: "DB \<Rightarrow> error + int" where
  "next_pk db =
     (if db \<noteq> [] then
        (case py_max (map (\<lambda>(_, dog). pk dog) db) of
           Inl e \<Rightarrow> Inl e
         | Inr m \<Rightarrow> py_add1 m)
      else Inr 1)"

text \<open>
  \<^verbatim>\<open>create_dog\<close>. \<^verbatim>\<open>if not pk\<close> holds of \<^verbatim>\<open>None\<close> and of 0. The handler returns
  \<^verbatim>\<open>DB_DOGS[pk]\<close>, read back after the store. An exception leaves the dict as it was.
\<close>

definition create_dog :: "DB \<Rightarrow> Dog_model \<Rightarrow> (error + Dog_inst) \<times> DB" where
  "create_dog db dog =
     (case (case pk dog of
              None \<Rightarrow> next_pk db
            | Some p \<Rightarrow> if p = 0 then next_pk db else Inr p) of
        Inl e \<Rightarrow> (Inl e, db)
      | Inr p \<Rightarrow>
          (let db' = AList.update p (Dog_init p dog) db
           in (case map_of db' p of
                 None \<Rightarrow> (Inl KeyError, db')
               | Some stored \<Rightarrow> (Inr stored, db'))))"


text \<open>
  \<^verbatim>\<open>get_dog_by_pk\<close>: \<^verbatim>\<open>if dog := DB_DOGS.get(pk): return dog\<close>, else 404. A model
  instance is always truthy.
\<close>

definition get_dog_by_pk :: "DB \<Rightarrow> int \<Rightarrow> error + Dog_inst" where
  "get_dog_by_pk db p =
     (case map_of db p of Some dog \<Rightarrow> Inr dog | None \<Rightarrow> Inl HTTP_404_NOT_FOUND)"

text \<open>
  The loop of \<^verbatim>\<open>update_dog\<close> over \<^verbatim>\<open>update_data.items()\<close>. It mutates \<^verbatim>\<open>current_dog\<close>
  in place, so when \<^verbatim>\<open>setattr\<close> raises, the assignments made before it remain.
\<close>

fun set_items :: "inherited \<Rightarrow> Dog_inst \<Rightarrow> (string \<times> string option) list \<Rightarrow> error option \<times> Dog_inst" where
  "set_items inh d [] = (None, d)"
| "set_items inh d ((key, value) # rest) =
     (if hasattr inh key \<and> value \<noteq> None then
        (case setattr inh d key (the value) of
           Inl e \<Rightarrow> (Some e, d)
         | Inr d' \<Rightarrow> set_items inh d' rest)
      else set_items inh d rest)"

text \<open>
  \<^verbatim>\<open>update_dog\<close>. \<^verbatim>\<open>update_data\<close> is a \<^verbatim>\<open>Dict[str, Optional[str]]\<close>, given as its items
  in order. \<^verbatim>\<open>current_dog\<close> is the object the dict holds, so the dict sees every
  assignment, with or without the final \<^verbatim>\<open>DB_DOGS[pk] = current_dog\<close>.
\<close>

definition update_dog :: "inherited \<Rightarrow> DB \<Rightarrow> int \<Rightarrow> (string \<times> string option) list \<Rightarrow> (error + Dog_inst) \<times> DB" where
  "update_dog inh db p update_data =
     (case map_of db p of
        None \<Rightarrow> (Inl HTTP_404_NOT_FOUND, db)
      | Some current_dog \<Rightarrow>
          (let invalid_keys = [key \<leftarrow> map fst update_data. \<not> hasattr inh key]
           in if invalid_keys \<noteq> [] then (Inl (HTTP_400_BAD_REQUEST invalid_keys), db)
              else (case set_items inh current_dog update_data of
                      (Some e, d') \<Rightarrow> (Inl e, AList.update p d' db)
                    | (None, d') \<Rightarrow> (Inr d', AList.update p d' db))))"

text \<open>\<^verbatim>\<open>delete_dog\<close>: 404 when \<^verbatim>\<open>pk not in DB_DOGS\<close>, else \<^verbatim>\<open>DB_DOGS.pop(pk)\<close>.\<close>

definition delete_dog :: "DB \<Rightarrow> int \<Rightarrow> (error + Dog_inst) \<times> DB" where
  "delete_dog db p =
     (case map_of db p of
        None \<Rightarrow> (Inl HTTP_404_NOT_FOUND, db)
      | Some deleted_dog \<Rightarrow> (Inr deleted_dog, AList.delete p db))"

subsection \<open>Sequences of requests\<close>

datatype request =
  Create Dog_model
  | Update int "(string \<times> string option) list"
  | Delete int

fun handle :: "inherited \<Rightarrow> DB \<Rightarrow> request \<Rightarrow> (error + Dog_inst) \<times> DB" where
  "handle inh db (Create dog) = create_dog db dog"
| "handle inh db (Update p update_data) = update_dog inh db p update_data"
| "handle inh db (Delete p) = delete_dog db p"

text \<open>The responses to a sequence of requests, and the dict after the last one.\<close>

fun run :: "inherited \<Rightarrow> DB \<Rightarrow> request list \<Rightarrow> (error + Dog_inst) list \<times> DB" where
  "run inh db [] = ([], db)"
| "run inh db (r # rs) =
     (case handle inh db r of
        (resp, db') \<Rightarrow> (case run inh db' rs of (resps, db'') \<Rightarrow> (resp # resps, db'')))"

text \<open>
  The identifier each \<^verbatim>\<open>create_dog\<close> of a sequence answers with (the \<^verbatim>\<open>pk\<close> of the
  returned instance), or its error.
\<close>

fun created_pks :: "inherited \<Rightarrow> DB \<Rightarrow> request list \<Rightarrow> (error + pyval) list" where
  "created_pks inh db [] = []"
| "created_pks inh db (Create dog # rs) =
     (case create_dog db dog of
        (resp, db') \<Rightarrow> map_sum id pk resp # created_pks inh db' rs)"
| "created_pks inh db (r # rs) = created_pks inh (snd (handle inh db r)) rs"

text \<open>How many requests of a sequence are creations.\<close>

fun creates :: "request list \<Rightarrow> nat" where
  "creates [] = 0"
| "creates (Create dog # rs) = Suc (creates rs)"
| "creates (r # rs) = creates rs"

text \<open>
  A sequence of creations without \<^verbatim>\<open>pk\<close> and of deletions, after \<open>n\<close> earlier creations,
  in which no deletion asks for the id of the latest creation so far (the \<open>n\<close>-th
  creation gets the id \<open>n\<close> as long as this holds).
\<close>

fun spares_latest :: "nat \<Rightarrow> request list \<Rightarrow> bool" where
  "spares_latest n [] = True"
| "spares_latest n (Create dog # rs) = (pk dog = None \<and> spares_latest (Suc n) rs)"
| "spares_latest n (Delete p # rs) = (p \<noteq> int n \<and> spares_latest n rs)"
| "spares_latest n (Update p update_data # rs) = False"

text \<open>An update whose patch has a value other than \<^verbatim>\<open>None\<close> for \<^verbatim>\<open>pk\<close>.\<close>

fun patches_pk :: "request \<Rightarrow> bool" where
  "patches_pk (Update p update_data) =
     list_ex (\<lambda>(key, value). key = ''pk'' \<and> value \<noteq> None) update_data"
| "patches_pk r = False"

subsection \<open>Well-formed dicts\<close>

text \<open>A dict has each key once.\<close>

definition is_dict :: "DB \<Rightarrow> bool" where
  "is_dict db \<longleftrightarrow> distinct (map fst db)"

text \<open>Every instance is stored under the int its \<^verbatim>\<open>pk\<close> holds.\<close>

definition pk_is_key :: "DB \<Rightarrow> bool" where
  "pk_is_key db \<longleftrightarrow> list_all (\<lambda>(k, dog). pk dog = VInt k) db"

text \<open>
  The dict after \<open>n\<close> creations without \<^verbatim>\<open>pk\<close>, none of which was deleted while it
  was the latest: every instance holds its int key, no key exceeds \<open>n\<close>, and the key
  \<open>n\<close> is live unless nothing was created yet.
\<close>

definition latest_is :: "nat \<Rightarrow> DB \<Rightarrow> bool" where
  "latest_is n db \<longleftrightarrow>
     pk_is_key db \<and> (\<forall>k \<in> fst ` set db. k \<le> int n) \<and> (db = [] \<longleftrightarrow> n = 0)
     \<and> (0 < n \<longrightarrow> int n \<in> fst ` set db)"

subsection \<open>Matching without regard to case\<close>






subsection \<open>Example values\<close>

text \<open>
  Two request bodies that leave every optional field out: \<^verbatim>\<open>{"name": "Rex", "kind":
  "terrier"}\<close> and \<^verbatim>\<open>{"name": "Buddy", "kind": "bulldog", "vaccinated": true}\<close>.
\<close>

definition rex :: Dog_model where
  "rex = \<lparr>pk = None, name = ''Rex'', kind = terrier, age = None, owner = None,
           vaccinated = False\<rparr>"

definition buddy :: Dog_model where
  "buddy = \<lparr>pk = None, name = ''Buddy'', kind = bulldog, age = None, owner = None,
             vaccinated = True\<rparr>"

text \<open>The dict after \<^verbatim>\<open>rex\<close> and then \<^verbatim>\<open>buddy\<close> were created in the empty one.\<close>

definition two_dogs :: DB where
  "two_dogs = [(1, Dog_init 1 rex), (2, Dog_init 2 buddy)]"




text \<open>
  Every Python object has the attribute \<^verbatim>\<open>__class__\<close>, and assigning a str to it raises
  TypeError. This is the least the inherited names contain.
\<close>

definition object_attrs :: inherited where
  "object_attrs = [''__class__'' \<mapsto> Raises TypeError]"

section \<open>Properties\<close>

subsection \<open>Creating on a dict whose instances hold their keys\<close>

lemma Dog_init_pk_update [simp]: "Dog_init p (dog\<lparr>pk := x\<rparr>) = Dog_init p dog"
  by (simp add: Dog_init_def)

lemma pk_Dog_init [simp]: "pk (Dog_init p dog) = VInt p"
  by (simp add: Dog_init_def)

text \<open>
  The instance \<^verbatim>\<open>create_dog\<close> reads back is the one it has just stored.
\<close>

lemma create_dog_unfold:
  "create_dog db dog =
     (case (case pk dog of None \<Rightarrow> next_pk db | Some p \<Rightarrow> if p = 0 then next_pk db else Inr p) of
        Inl e \<Rightarrow> (Inl e, db)
      | Inr p \<Rightarrow> (Inr (Dog_init p dog), AList.update p (Dog_init p dog) db))"
  by (simp add: create_dog_def AList.update_conv' split: sum.splits)

lemma py_gt_VInt [simp]: "py_gt (VInt a) (VInt b) = Inr (b < a)"
  by (simp add: py_gt_def)

text \<open>
  On ints, the scan of \<^verbatim>\<open>max\<close> returns the greatest of them.
\<close>

lemma py_max_from_ints:
  "py_max_from (VInt m) (map VInt ks) = Inr (VInt (Max (insert m (set ks))))"
proof (induction ks arbitrary: m)
  case Nil
  then show ?case by simp
next
  case (Cons k ks)
  have "Max (insert (if m < k then k else m) (set ks)) = Max (insert m (insert k (set ks)))"
    by (cases "set ks = {}") (auto simp: max_def)
  then show ?case using Cons.IH [of "if m < k then k else m"]
    by (cases "m < k") simp_all
qed

lemma pks_of_pk_is_key:
  "pk_is_key db \<Longrightarrow> map (\<lambda>(_, dog). pk dog) db = map VInt (map fst db)"
  by (induction db) (auto simp: pk_is_key_def)

text \<open>
  While every instance holds its int key in \<^verbatim>\<open>pk\<close>, the computed id is 1 on the empty
  dict and the greatest key plus 1 otherwise.
\<close>

lemma next_pk_ints:
  assumes "pk_is_key db"
  shows "next_pk db = Inr (if db = [] then 1 else Max (fst ` set db) + 1)"
proof (cases db)
  case Nil
  then show ?thesis by (simp add: next_pk_def)
next
  case (Cons kd rest)
  obtain k d where kd: "kd = (k, d)" by (cases kd)
  from assms Cons kd have "map (\<lambda>(_, dog). pk dog) db = VInt k # map VInt (map fst rest)"
    using pks_of_pk_is_key [OF assms] by simp
  then have "py_max (map (\<lambda>(_, dog). pk dog) db) = Inr (VInt (Max (insert k (set (map fst rest)))))"
    by (simp add: py_max_def py_max_from_ints del: map_map)
  moreover have "insert k (set (map fst rest)) = fst ` set db" using Cons kd by simp
  ultimately show ?thesis using Cons by (simp add: next_pk_def py_add1_def)
qed

lemma create_dog_on_int_pks:
  assumes "pk dog = None \<or> pk dog = Some 0" and "pk_is_key db"
  shows "create_dog db dog =
           (let p = (if db = [] then 1 else Max (fst ` set db) + 1)
            in (Inr (Dog_init p dog), AList.update p (Dog_init p dog) db))"
  using assms by (auto simp: create_dog_unfold next_pk_ints Let_def)

text \<open>
  The two example bodies, created one after the other in the empty dict.
\<close>

lemma two_dogs_created: "run inh [] [Create rex, Create buddy] = ([Inr (Dog_init 1 rex), Inr (Dog_init 2 buddy)], two_dogs)"
  by (simp add: two_dogs_def create_dog_unfold next_pk_def py_max_def py_add1_def rex_def buddy_def)

subsection \<open>What keeps the dict well formed\<close>

lemma pk_is_key_update:
  "pk_is_key db \<Longrightarrow> pk d = VInt p \<Longrightarrow> pk_is_key (AList.update p d db)"
  by (induction db) (auto simp: pk_is_key_def)

lemma pk_is_key_delete: "pk_is_key db \<Longrightarrow> pk_is_key (AList.delete p db)"
  by (induction db) (auto simp: pk_is_key_def)

lemma pk_is_key_lookup: "pk_is_key db \<Longrightarrow> map_of db p = Some d \<Longrightarrow> pk d = VInt p"
  by (induction db) (auto simp: pk_is_key_def split: if_splits)

lemma pk_is_key_create: "pk_is_key db \<Longrightarrow> pk_is_key (snd (create_dog db dog))"
  by (auto simp: create_dog_unfold pk_is_key_update split: sum.splits option.splits)

lemma pk_is_key_delete_dog: "pk_is_key db \<Longrightarrow> pk_is_key (snd (delete_dog db p))"
  by (auto simp: delete_dog_def pk_is_key_delete split: option.splits)

lemma is_dict_create: "is_dict db \<Longrightarrow> is_dict (snd (create_dog db dog))"
  by (auto simp: create_dog_unfold is_dict_def AList.distinct_update split: sum.splits option.splits)

lemma is_dict_delete_dog: "is_dict db \<Longrightarrow> is_dict (snd (delete_dog db p))"
  by (auto simp: delete_dog_def is_dict_def AList.distinct_delete split: option.splits)

lemma is_dict_update_dog: "is_dict db \<Longrightarrow> is_dict (snd (update_dog inh db p items))"
  by (auto simp: update_dog_def is_dict_def Let_def AList.distinct_update split: option.splits prod.splits)

text \<open>
  Assigning to any attribute but \<^verbatim>\<open>pk\<close> leaves \<^verbatim>\<open>pk\<close> alone, so a patch without a
  value for \<^verbatim>\<open>pk\<close> does, whether or not the loop runs to its end.
\<close>

lemma setattr_keeps_pk: "key \<noteq> ''pk'' \<Longrightarrow> setattr inh d key v = Inr d' \<Longrightarrow> pk d' = pk d"
  by (auto simp: setattr_def split: if_splits option.splits setattr_outcome.splits)

lemma set_items_keeps_pk:
  "\<not> list_ex (\<lambda>(key, value). key = ''pk'' \<and> value \<noteq> None) items \<Longrightarrow>
     pk (snd (set_items inh d items)) = pk d"
proof (induction items arbitrary: d)
  case Nil
  then show ?case by simp
next
  case (Cons item items)
  obtain key val where item: "item = (key, val)" by (cases item)
  show ?case
  proof (cases "hasattr inh key \<and> val \<noteq> None")
    case True
    with Cons.prems item have "key \<noteq> ''pk''" by auto
    with True Cons item show ?thesis
      by (auto split: sum.splits dest: setattr_keeps_pk)
  next
    case False
    with Cons item show ?thesis by auto
  qed
qed

lemma pk_is_key_update_dog:
  assumes "pk_is_key db" and "\<not> patches_pk (Update p items)"
  shows "pk_is_key (snd (update_dog inh db p items))"
proof (cases "map_of db p")
  case None
  with assms show ?thesis by (simp add: update_dog_def)
next
  case (Some d)
  have "pk (snd (set_items inh d items)) = VInt p"
    using set_items_keeps_pk [of items inh d] assms pk_is_key_lookup [OF assms(1) Some] by simp
  then have "pk_is_key (AList.update p (snd (set_items inh d items)) db)"
    by (rule pk_is_key_update [OF assms(1)])
  with Some assms(1) show ?thesis
    by (auto simp: update_dog_def Let_def split: prod.splits option.splits)
qed

lemma snd_run_Cons: "snd (run inh db (r # rs)) = snd (run inh (snd (handle inh db r)) rs)"
  by (simp split: prod.splits)

lemma is_dict_run: "is_dict db \<Longrightarrow> is_dict (snd (run inh db rs))"
proof (induction rs arbitrary: db)
  case Nil
  then show ?case by simp
next
  case (Cons r rs)
  then have "is_dict (snd (handle inh db r))"
    by (cases r) (simp_all add: is_dict_create is_dict_update_dog is_dict_delete_dog)
  from Cons.IH [OF this] show ?case by (simp only: snd_run_Cons)
qed

lemma pk_is_key_run:
  "pk_is_key db \<Longrightarrow> \<forall>r \<in> set rs. \<not> patches_pk r \<Longrightarrow> pk_is_key (snd (run inh db rs))"
proof (induction rs arbitrary: db)
  case Nil
  then show ?case by simp
next
  case (Cons r rs)
  then have "pk_is_key (snd (handle inh db r))"
    by (cases r) (simp_all add: pk_is_key_create pk_is_key_update_dog pk_is_key_delete_dog)
  from Cons.IH [OF this] Cons.prems show ?case by (simp only: snd_run_Cons) simp
qed

subsection \<open>C1: the ids of successive creations\<close>

text \<open>
  Under \<open>latest_is n\<close> the next id is \<open>n + 1\<close>; a creation without \<^verbatim>\<open>pk\<close> leads to
  \<open>latest_is (n + 1)\<close>, a deletion of any id but \<open>n\<close> keeps \<open>latest_is n\<close>.
\<close>

lemma latest_is_next_pk:
  assumes "latest_is n db"
  shows "next_pk db = Inr (int n + 1)"
proof (cases "db = []")
  case True
  with assms show ?thesis by (simp add: latest_is_def next_pk_def)
next
  case False
  with assms have "Max (fst ` set db) = int n"
    by (intro Max_eqI) (auto simp: latest_is_def)
  with False assms show ?thesis by (simp add: next_pk_ints latest_is_def)
qed

lemma latest_is_create:
  assumes "latest_is n db" and "pk dog = None"
  shows "create_dog db dog = (Inr (Dog_init (int n + 1) dog), AList.update (int n + 1) (Dog_init (int n + 1) dog) db)"
    and "latest_is (Suc n) (snd (create_dog db dog))"
proof -
  show c: "create_dog db dog = (Inr (Dog_init (int n + 1) dog), AList.update (int n + 1) (Dog_init (int n + 1) dog) db)"
    using assms by (simp add: create_dog_unfold latest_is_next_pk)
  from assms(1) have "pk_is_key (AList.update (int n + 1) (Dog_init (int n + 1) dog) db)"
    by (simp add: latest_is_def pk_is_key_update)
  with assms(1) show "latest_is (Suc n) (snd (create_dog db dog))"
    unfolding c by (auto simp: latest_is_def AList.dom_update)
qed

lemma latest_is_delete:
  assumes "latest_is n db" and "p \<noteq> int n"
  shows "latest_is n (snd (delete_dog db p))"
proof (cases "map_of db p")
  case None
  with assms show ?thesis by (simp add: delete_dog_def)
next
  case (Some d)
  have keys: "fst ` set (AList.delete p db) = fst ` set db - {p}"
    by (induction db) (auto simp: AList.delete_eq)
  from Some have "db \<noteq> []" by auto
  with assms have "int n \<in> fst ` set (AList.delete p db)" unfolding keys
    by (auto simp: latest_is_def)
  then have "AList.delete p db \<noteq> []" by auto
  with assms Some keys \<open>db \<noteq> []\<close> show ?thesis
    by (auto simp: delete_dog_def latest_is_def pk_is_key_delete)
qed

lemma created_pks_from:
  "latest_is n db \<Longrightarrow> spares_latest n rs \<Longrightarrow>
     created_pks inh db rs = map (\<lambda>i. Inr (VInt (int i))) [Suc n ..< Suc (n + creates rs)]"
proof (induction rs arbitrary: n db)
  case Nil
  then show ?case by simp
next
  case (Cons r rs)
  show ?case
  proof (cases r)
    case (Create dog)
    with Cons.prems have none: "pk dog = None" and rest: "spares_latest (Suc n) rs" by simp_all
    note c = latest_is_create [OF Cons.prems(1) none]
    from Cons.IH [OF c(2) rest] Create c(1) show ?thesis
      by (simp add: upt_conv_Cons del: upt_Suc)
  next
    case (Update p items)
    with Cons.prems show ?thesis by simp
  next
    case (Delete p)
    with Cons.prems have "p \<noteq> int n" and rest: "spares_latest n rs" by simp_all
    from Cons.IH [OF latest_is_delete [OF Cons.prems(1) this(1)] rest] Delete show ?thesis
      by simp
  qed
qed

text \<open>
  C1, as the code has it: from the empty dict, in a sequence of creations without
  \<^verbatim>\<open>pk\<close> and of deletions in which no deletion asks for the id of the latest creation
  so far, the creations are answered with the ids 1, 2, 3, ... in order, one more per
  creation, whatever else is deleted in between (so create, create, delete 1, create
  gives 1, 2, 3).
\<close>

theorem create_dog_ids_count_up:
  assumes "spares_latest 0 rs"
  shows "created_pks inh [] rs = map (\<lambda>i. Inr (VInt (int i))) [1 ..< Suc (creates rs)]"
proof -
  have "latest_is 0 []" by (simp add: latest_is_def pk_is_key_def)
  from created_pks_from [OF this assms] show ?thesis by simp
qed

theorem create_dog_ids_count_up_witness:
  "spares_latest 0 [Create rex, Create buddy, Delete 1, Create rex]
   \<and> created_pks object_attrs [] [Create rex, Create buddy, Delete 1, Create rex]
       = [Inr (VInt 1), Inr (VInt 2), Inr (VInt 3)]"
proof -
  have spares: "spares_latest 0 [Create rex, Create buddy, Delete 1, Create rex]"
    by (simp add: rex_def buddy_def)
  from create_dog_ids_count_up [OF spares, of object_attrs] spares
  show ?thesis by (simp add: upt_rec)
qed

text \<open>
  C1 as stated fails when the deletion removes the instance with the greatest id: after
  create (id 1), create (id 2) and delete 2, the next creation is answered with
  \<^verbatim>\<open>max + 1 = 2\<close> again, not with 3.
\<close>

theorem create_dog_reuses_deleted_max:
  "created_pks object_attrs [] [Create rex, Create buddy, Delete 2, Create rex]
     = [Inr (VInt 1), Inr (VInt 2), Inr (VInt 2)]
   \<and> created_pks object_attrs [] [Create rex, Create buddy, Delete 2, Create rex]
     \<noteq> [Inr (VInt 1), Inr (VInt 2), Inr (VInt 3)]"
  by (simp add: create_dog_unfold next_pk_def rex_def buddy_def delete_dog_def py_max_def py_add1_def Dog_init_def)

subsection \<open>C2: which patch keys \<^verbatim>\<open>update_dog\<close> refuses\<close>

text \<open>
  What the check does refuse: when some key of the patch is no attribute of the instance,
  \<^verbatim>\<open>update_dog\<close> on a stored id fails with 400, naming those keys, and the dict is as
  before.
\<close>

lemma update_dog_refuses_non_attribute:
  assumes "map_of db p = Some current_dog"
    and "\<exists>key \<in> set (map fst update_data). \<not> hasattr inh key"
  shows "update_dog inh db p update_data =
           (Inl (HTTP_400_BAD_REQUEST [key \<leftarrow> map fst update_data. \<not> hasattr inh key]), db)"
proof -
  from assms(2) have "[key \<leftarrow> map fst update_data. \<not> hasattr inh key] \<noteq> []"
    by (simp add: filter_empty_conv)
  with assms(1) show ?thesis by (simp add: update_dog_def Let_def)
qed

text \<open>
  C2 says that a key naming none of the six fields makes \<^verbatim>\<open>update_dog\<close> fail with 400
  and leave the dict alone. The check is \<^verbatim>\<open>hasattr\<close>, which also holds of inherited
  names: with \<^verbatim>\<open>{"__class__": null}\<close> the handler answers with the unchanged instance
  and no error; with \<^verbatim>\<open>{"age": "5", "__class__": "x"}\<close> it sets \<^verbatim>\<open>age\<close> and then
  leaves with the TypeError of the assignment, not with 400. A key that is no attribute
  at all is refused with 400 before anything is assigned.
\<close>

theorem update_dog_accepts_inherited_name:
  "update_dog object_attrs two_dogs 1 [(''__class__'', None)] = (Inr (Dog_init 1 rex), two_dogs)
   \<and> update_dog object_attrs two_dogs 1 [(''age'', Some ''5''), (''__class__'', Some ''x'')]
       = (Inl TypeError, [(1, (Dog_init 1 rex)\<lparr>age := VStr ''5''\<rparr>), (2, Dog_init 2 buddy)])
   \<and> update_dog object_attrs two_dogs 1 [(''age'', Some ''5''), (''unknown_field'', Some ''x'')]
       = (Inl (HTTP_400_BAD_REQUEST [''unknown_field'']), two_dogs)"
  by (simp add: update_dog_def two_dogs_def object_attrs_def hasattr_def Dog_fields_def setattr_def)

subsection \<open>C3: identifiers and keys\<close>

text \<open>
  C3, as the code has it: after every sequence of requests from the empty dict no key
  occurs twice; and if no update of the sequence carries a value other than
  \<^verbatim>\<open>None\<close> for \<^verbatim>\<open>pk\<close>, every stored instance holds its key in \<^verbatim>\<open>pk\<close> and no two
  instances hold the same \<^verbatim>\<open>pk\<close>.
\<close>

theorem pk_is_key_unless_patched:
  "is_dict (snd (run inh [] rs))
   \<and> ((\<forall>r \<in> set rs. \<not> patches_pk r) \<longrightarrow>
        pk_is_key (snd (run inh [] rs))
        \<and> distinct (map (\<lambda>(_, dog). pk dog) (snd (run inh [] rs))))"
proof -
  have empty: "is_dict []" "pk_is_key []"
    by (simp_all add: is_dict_def pk_is_key_def)
  have keys: "is_dict (snd (run inh [] rs))"
    by (rule is_dict_run [OF empty(1)])
  have "distinct (map (\<lambda>(_, dog). pk dog) (snd (run inh [] rs)))"
    if "pk_is_key (snd (run inh [] rs))"
    using keys pks_of_pk_is_key [OF that] by (simp add: is_dict_def distinct_map inj_on_def)
  with keys pk_is_key_run [OF empty(2)] show ?thesis by blast
qed

theorem pk_is_key_unless_patched_witness:
  "list_all (\<lambda>r. \<not> patches_pk r)
     [Create rex, Update 1 [(''name'', Some ''Max''), (''pk'', None)], Create buddy, Delete 1]
   \<and> snd (run object_attrs [] [Create rex, Update 1 [(''name'', Some ''Max''), (''pk'', None)], Create buddy, Delete 1])
       = [(2, Dog_init 2 buddy)]
   \<and> is_dict [(2, Dog_init 2 buddy)] \<and> pk_is_key [(2, Dog_init 2 buddy)]
   \<and> distinct (map (\<lambda>(_, dog). pk dog) [(2, Dog_init 2 buddy)])"
proof -
  let ?rs = "[Create rex, Update 1 [(''name'', Some ''Max''), (''pk'', None)], Create buddy, Delete 1]"
  have unpatched: "\<forall>r \<in> set ?rs. \<not> patches_pk r" by simp
  have final: "snd (run object_attrs [] ?rs) = [(2, Dog_init 2 buddy)]"
    by (simp add: create_dog_unfold next_pk_def py_max_def py_add1_def rex_def buddy_def
        update_dog_def hasattr_def Dog_fields_def setattr_def delete_dog_def Dog_init_def)
  have listed: "list_all (\<lambda>r. \<not> patches_pk r) ?rs" by simp
  from pk_is_key_unless_patched [of object_attrs ?rs] unpatched final
  have "is_dict [(2, Dog_init 2 buddy)] \<and> pk_is_key [(2, Dog_init 2 buddy)]
        \<and> distinct (map (\<lambda>(_, dog). pk dog) [(2, Dog_init 2 buddy)])" by simp
  with listed final show ?thesis by blast
qed

text \<open>
  C3 as stated fails on an update that patches \<^verbatim>\<open>pk\<close>: after create (id 1) and
  \<^verbatim>\<open>update_dog(1, {"pk": "7"})\<close> the instance stored under the key 1 holds the str
  \<^verbatim>\<open>"7"\<close> in \<^verbatim>\<open>pk\<close>.
\<close>

theorem update_dog_overwrites_pk:
  "run object_attrs [] [Create rex, Update 1 [(''pk'', Some ''7'')]]
     = ([Inr (Dog_init 1 rex), Inr ((Dog_init 1 rex)\<lparr>pk := VStr ''7''\<rparr>)],
        [(1, (Dog_init 1 rex)\<lparr>pk := VStr ''7''\<rparr>)])
   \<and> \<not> pk_is_key [(1, (Dog_init 1 rex)\<lparr>pk := VStr ''7''\<rparr>)]"
  by (simp add: create_dog_unfold next_pk_def rex_def update_dog_def hasattr_def Dog_fields_def
      setattr_def pk_is_key_def)

subsection \<open>C4: searching by name\<close>


















subsection \<open>C5: creating without an identifier\<close>

text \<open>
  On a dict whose instances all hold their int key in \<^verbatim>\<open>pk\<close>, \<^verbatim>\<open>create_dog\<close> on a
  body without \<^verbatim>\<open>pk\<close> does not fail: it takes the greatest key plus 1 (1 on the empty
  dict), which is no key of the dict yet, stores under it the field-by-field copy of the
  body with that id, changes no other entry, and answers with the stored instance.
\<close>

lemma create_dog_assigns_next_id:
  assumes "pk dog = None" and "pk_is_key db"
    and "p = (if db = [] then 1 else Max (fst ` set db) + 1)"
    and "stored = \<lparr>pk = VInt p, name = name dog, kind = VEnum (kind dog),
                    age = (case age dog of None \<Rightarrow> VNone | Some a \<Rightarrow> VInt (int a)),
                    owner = owner dog, vaccinated = VBool (vaccinated dog)\<rparr>"
  shows "create_dog db dog = (Inr stored, AList.update p stored db)
         \<and> get_dog_by_pk (snd (create_dog db dog)) p = Inr stored
         \<and> (\<forall>q. q \<noteq> p \<longrightarrow> get_dog_by_pk (snd (create_dog db dog)) q = get_dog_by_pk db q)
         \<and> p \<notin> fst ` set db"
proof -
  have stored: "stored = Dog_init p dog" using assms(4) by (simp add: Dog_init_def)
  have created: "create_dog db dog = (Inr stored, AList.update p stored db)"
    using create_dog_on_int_pks [of dog db] assms(1-3) stored by (simp add: Let_def)
  have fresh: "p \<notin> fst ` set db"
  proof (cases "db = []")
    case True
    then show ?thesis by simp
  next
    case False
    have "k \<le> Max (fst ` set db)" if "k \<in> fst ` set db" for k
      using that by (intro Max_ge) auto
    with False assms(3) show ?thesis by fastforce
  qed
  from created fresh show ?thesis
    by (simp add: get_dog_by_pk_def AList.update_conv')
qed

text \<open>
  C5 says that \<^verbatim>\<open>create_dog\<close> never fails. It does, after an update has put a str into
  a \<^verbatim>\<open>pk\<close>: following create (id 1) and \<^verbatim>\<open>update_dog(1, {"pk": "7"})\<close>, the next
  creation without \<^verbatim>\<open>pk\<close> computes \<^verbatim>\<open>max\<close> of the stored \<^verbatim>\<open>pk\<close>s, which is
  \<^verbatim>\<open>"7"\<close>, and leaves with the TypeError of \<^verbatim>\<open>"7" + 1\<close>; nothing is stored.
\<close>

theorem create_dog_fails_on_str_pk:
  "run object_attrs [] [Create rex, Update 1 [(''pk'', Some ''7'')], Create buddy]
     = ([Inr (Dog_init 1 rex), Inr ((Dog_init 1 rex)\<lparr>pk := VStr ''7''\<rparr>), Inl TypeError],
        [(1, (Dog_init 1 rex)\<lparr>pk := VStr ''7''\<rparr>)])"
  by (simp add: create_dog_unfold next_pk_def py_max_def py_add1_def rex_def buddy_def
      update_dog_def hasattr_def Dog_fields_def setattr_def)

subsection \<open>C6: what a patch of field names overwrites\<close>

lemma hasattr_field: "key \<in> set Dog_fields \<Longrightarrow> hasattr inh key"
  by (simp add: hasattr_def)

text \<open>
  A patch whose keys are all field names runs through the loop without an exception.
\<close>

lemma set_items_fields_ok:
  assumes "set (map fst items) \<subseteq> set Dog_fields"
  shows "fst (set_items inh d items) = None"
  using assms
proof (induction items arbitrary: d)
  case Nil
  then show ?case by simp
next
  case (Cons item items)
  obtain key val where item: "item = (key, val)" by (cases item)
  from Cons.prems item have key: "key \<in> set Dog_fields" by simp
  then obtain d' where "setattr inh d key (the val) = Inr d'"
    by (auto simp: setattr_def Dog_fields_def)
  with Cons item key show ?case by (simp add: hasattr_field)
qed

text \<open>
  One field through the loop: for a reading \<open>g\<close> of the instance that an assignment
  to the field \<open>fname\<close> sets to \<open>e v\<close> and every other assignment leaves alone, the
  loop ends with \<open>e v\<close> when the patch has the value \<open>v\<close> for \<open>fname\<close>, and with what was
  there before otherwise.
\<close>

lemma set_items_field:
  assumes sa: "\<And>d key v. key \<in> set Dog_fields \<Longrightarrow>
                 \<exists>d'. setattr inh d key v = Inr d' \<and> g d' = (if key = fname then e v else g d)"
    and "set (map fst items) \<subseteq> set Dog_fields"
    and "distinct (map fst items)"
  shows "g (snd (set_items inh d items)) =
           (case map_of items fname of Some (Some v) \<Rightarrow> e v | _ \<Rightarrow> g d)"
  using assms(2,3)
proof (induction items arbitrary: d)
  case Nil
  then show ?case by simp
next
  case (Cons item items)
  obtain key val where item: "item = (key, val)" by (cases item)
  from Cons.prems item have key: "key \<in> set Dog_fields" and rest: "set (map fst items) \<subseteq> set Dog_fields"
    and fresh: "map_of items key = None" and dist: "distinct (map fst items)"
    by (auto simp: map_of_eq_None_iff)
  note IH = Cons.IH [OF rest dist]
  show ?case
  proof (cases val)
    case None
    with item key fresh IH [of d] show ?thesis by (simp add: hasattr_field)
  next
    case (Some v)
    from sa [OF key, of d v] obtain d' where d': "setattr inh d key v = Inr d'"
      and g: "g d' = (if key = fname then e v else g d)" by blast
    with Some item key fresh IH [of d'] show ?thesis
      by (auto simp: hasattr_field split: option.splits)
  qed
qed

text \<open>
  C6: for an id that \<^verbatim>\<open>get_dog_by_pk\<close> finds and a patch (a dict, so its keys are
  distinct) whose keys are all field names, \<^verbatim>\<open>update_dog\<close> succeeds, stores the
  updated instance under the same key, and each of the six fields holds the patch's
  str where the patch has a value other than \<^verbatim>\<open>None\<close> for it, and what it held
  before where the patch has \<^verbatim>\<open>None\<close> or nothing for it.
\<close>

theorem update_dog_overwrites_non_null:
  assumes "get_dog_by_pk db p = Inr current_dog"
    and "distinct (map fst update_data)"
    and "set (map fst update_data) \<subseteq> set Dog_fields"
  shows "\<exists>d'. update_dog inh db p update_data = (Inr d', AList.update p d' db)
     \<and> pk d' = (case map_of update_data ''pk'' of Some (Some v) \<Rightarrow> VStr v | _ \<Rightarrow> pk current_dog)
     \<and> name d' = (case map_of update_data ''name'' of Some (Some v) \<Rightarrow> v | _ \<Rightarrow> name current_dog)
     \<and> kind d' = (case map_of update_data ''kind'' of Some (Some v) \<Rightarrow> VStr v | _ \<Rightarrow> kind current_dog)
     \<and> age d' = (case map_of update_data ''age'' of Some (Some v) \<Rightarrow> VStr v | _ \<Rightarrow> age current_dog)
     \<and> owner d' = (case map_of update_data ''owner'' of Some (Some v) \<Rightarrow> Some v | _ \<Rightarrow> owner current_dog)
     \<and> vaccinated d' = (case map_of update_data ''vaccinated'' of Some (Some v) \<Rightarrow> VStr v | _ \<Rightarrow> vaccinated current_dog)"
proof -
  let ?r = "set_items inh current_dog update_data"
  from assms(1) have stored: "map_of db p = Some current_dog"
    by (simp add: get_dog_by_pk_def split: option.splits)
  from assms(3) have valid: "[key \<leftarrow> map fst update_data. \<not> hasattr inh key] = []"
    by (auto simp: filter_empty_conv hasattr_field)
  have ok: "fst ?r = None" by (rule set_items_fields_ok [OF assms(3)])
  then obtain d' where r: "?r = (None, d')" by (cases ?r) simp
  have upd: "update_dog inh db p update_data = (Inr (snd ?r), AList.update p (snd ?r) db)"
    unfolding update_dog_def using stored valid r by (simp add: Let_def)
  have f1: "pk (snd ?r) = (case map_of update_data ''pk'' of Some (Some v) \<Rightarrow> VStr v | _ \<Rightarrow> pk current_dog)"
    by (rule set_items_field [OF _ assms(3,2)]) (auto simp: setattr_def Dog_fields_def)
  have f2: "name (snd ?r) = (case map_of update_data ''name'' of Some (Some v) \<Rightarrow> v | _ \<Rightarrow> name current_dog)"
    by (rule set_items_field [OF _ assms(3,2)]) (auto simp: setattr_def Dog_fields_def)
  have f3: "kind (snd ?r) = (case map_of update_data ''kind'' of Some (Some v) \<Rightarrow> VStr v | _ \<Rightarrow> kind current_dog)"
    by (rule set_items_field [OF _ assms(3,2)]) (auto simp: setattr_def Dog_fields_def)
  have f4: "age (snd ?r) = (case map_of update_data ''age'' of Some (Some v) \<Rightarrow> VStr v | _ \<Rightarrow> age current_dog)"
    by (rule set_items_field [OF _ assms(3,2)]) (auto simp: setattr_def Dog_fields_def)
  have f5: "owner (snd ?r) = (case map_of update_data ''owner'' of Some (Some v) \<Rightarrow> Some v | _ \<Rightarrow> owner current_dog)"
    by (rule set_items_field [OF _ assms(3,2)]) (auto simp: setattr_def Dog_fields_def)
  have f6: "vaccinated (snd ?r) = (case map_of update_data ''vaccinated'' of Some (Some v) \<Rightarrow> VStr v | _ \<Rightarrow> vaccinated current_dog)"
    by (rule set_items_field [OF _ assms(3,2)]) (auto simp: setattr_def Dog_fields_def)
  from upd f1 f2 f3 f4 f5 f6 show ?thesis by blast
qed

theorem update_dog_overwrites_non_null_witness:
  "get_dog_by_pk two_dogs 1 = Inr (Dog_init 1 rex)
   \<and> distinct (map fst [(''age'', Some ''5''), (''owner'', None)])
   \<and> set (map fst [(''age'', Some ''5''), (''owner'', None)]) \<subseteq> set Dog_fields
   \<and> (\<exists>d'. update_dog object_attrs two_dogs 1 [(''age'', Some ''5''), (''owner'', None)]
               = (Inr d', AList.update 1 d' two_dogs)
         \<and> pk d' = VInt 1 \<and> name d' = ''Rex'' \<and> kind d' = VEnum terrier
         \<and> age d' = VStr ''5'' \<and> owner d' = None \<and> vaccinated d' = VBool False)"
proof -
  have present: "get_dog_by_pk two_dogs 1 = Inr (Dog_init 1 rex)"
    by (simp add: get_dog_by_pk_def two_dogs_def)
  have keys: "distinct (map fst [(''age'', Some ''5''), (''owner'', None :: string option)])"
    by simp
  have fields: "set (map fst [(''age'', Some ''5''), (''owner'', None)]) \<subseteq> set Dog_fields"
    by (simp add: Dog_fields_def)
  from update_dog_overwrites_non_null [OF present keys fields, of object_attrs]
  have "\<exists>d'. update_dog object_attrs two_dogs 1 [(''age'', Some ''5''), (''owner'', None)]
               = (Inr d', AList.update 1 d' two_dogs)
         \<and> pk d' = VInt 1 \<and> name d' = ''Rex'' \<and> kind d' = VEnum terrier
         \<and> age d' = VStr ''5'' \<and> owner d' = None \<and> vaccinated d' = VBool False"
    by (simp add: Dog_init_def rex_def)
  with present keys fields show ?thesis by blast
qed

subsection \<open>C7: deleting\<close>

text \<open>
  C7: when \<^verbatim>\<open>get_dog_by_pk\<close> finds the id, \<^verbatim>\<open>delete_dog\<close> answers with exactly the
  instance that was stored, removes that id and no other, and \<^verbatim>\<open>get_dog_by_pk\<close> on
  the id then fails with 404; when the id is absent, \<^verbatim>\<open>delete_dog\<close> fails with 404 and
  leaves the dict as it was.
\<close>

theorem delete_dog_removes_and_returns:
  "(get_dog_by_pk db p = Inr d \<longrightarrow>
      delete_dog db p = (Inr d, AList.delete p db)
      \<and> get_dog_by_pk (snd (delete_dog db p)) p = Inl HTTP_404_NOT_FOUND
      \<and> (\<forall>q. q \<noteq> p \<longrightarrow> get_dog_by_pk (snd (delete_dog db p)) q = get_dog_by_pk db q))
   \<and> (get_dog_by_pk db p = Inl HTTP_404_NOT_FOUND \<longrightarrow>
      delete_dog db p = (Inl HTTP_404_NOT_FOUND, db))"
  by (auto simp: delete_dog_def get_dog_by_pk_def AList.delete_conv' split: option.splits)

theorem delete_dog_removes_and_returns_witness:
  "get_dog_by_pk [(1, Dog_init 1 buddy)] 1 = Inr (Dog_init 1 buddy)
   \<and> delete_dog [(1, Dog_init 1 buddy)] 1 = (Inr (Dog_init 1 buddy), [])
   \<and> get_dog_by_pk (snd (delete_dog [(1, Dog_init 1 buddy)] 1)) 1 = Inl HTTP_404_NOT_FOUND
   \<and> get_dog_by_pk [(1, Dog_init 1 buddy)] 2 = Inl HTTP_404_NOT_FOUND
   \<and> delete_dog [(1, Dog_init 1 buddy)] 2 = (Inl HTTP_404_NOT_FOUND, [(1, Dog_init 1 buddy)])"
proof -
  have present: "get_dog_by_pk [(1, Dog_init 1 buddy)] 1 = Inr (Dog_init 1 buddy)"
    by (simp add: get_dog_by_pk_def)
  have absent: "get_dog_by_pk [(1, Dog_init 1 buddy)] 2 = Inl HTTP_404_NOT_FOUND"
    by (simp add: get_dog_by_pk_def)
  from present absent
    delete_dog_removes_and_returns [of "[(1, Dog_init 1 buddy)]" 1 "Dog_init 1 buddy"]
    delete_dog_removes_and_returns [of "[(1, Dog_init 1 buddy)]" 2 "Dog_init 1 buddy"]
  show ?thesis by (simp add: get_dog_by_pk_def)
qed

subsection \<open>C8: reading back what was created\<close>

text \<open>
  The only exception \<^verbatim>\<open>create_dog\<close> can leave with is the TypeError of
  \<^verbatim>\<open>max(...) + 1\<close>, on a dict that is not empty.
\<close>

lemma py_max_from_error: "py_max_from m xs = Inl e \<Longrightarrow> e = TypeError"
  by (induction xs arbitrary: m)
     (auto simp: py_gt_def split: sum.splits option.splits if_splits)

lemma next_pk_error: "next_pk db = Inl e \<Longrightarrow> e = TypeError \<and> db \<noteq> []"
  by (auto simp: next_pk_def py_max_def py_add1_def
      split: if_splits sum.splits list.splits option.splits dest: py_max_from_error)

text \<open>
  C8: \<^verbatim>\<open>create_dog\<close> answers with an instance on every dict whose instances hold
  their int key in \<^verbatim>\<open>pk\<close>, and on every dict when the body carries a \<^verbatim>\<open>pk\<close> other
  than 0. Whenever it answers with an instance, the \<^verbatim>\<open>pk\<close> of that instance is an
  int, \<^verbatim>\<open>get_dog_by_pk\<close> on it in the resulting dict returns the same instance, and
  every field but \<^verbatim>\<open>pk\<close> holds the value of the request body. The one way it
  assigns no id is the TypeError on a dict in which some \<^verbatim>\<open>pk\<close> is not its key, for
  a body without \<^verbatim>\<open>pk\<close> (or with 0); the dict is then as before.
\<close>

theorem create_dog_then_get_dog_by_pk:
  "(pk_is_key db \<or> (\<exists>p. pk dog = Some p \<and> p \<noteq> 0) \<longrightarrow>
      (\<exists>stored db'. create_dog db dog = (Inr stored, db')))
   \<and> (\<forall>stored db'. create_dog db dog = (Inr stored, db') \<longrightarrow>
        (\<exists>i. pk stored = VInt i
           \<and> get_dog_by_pk db' i = Inr stored
           \<and> name stored = name dog
           \<and> kind stored = VEnum (kind dog)
           \<and> age stored = (case age dog of None \<Rightarrow> VNone | Some a \<Rightarrow> VInt (int a))
           \<and> owner stored = owner dog
           \<and> vaccinated stored = VBool (vaccinated dog)))
   \<and> (\<forall>e db'. create_dog db dog = (Inl e, db') \<longrightarrow>
        e = TypeError \<and> db' = db \<and> \<not> pk_is_key db \<and> (pk dog = None \<or> pk dog = Some 0))"
proof -
  have succeeds: "\<exists>stored db'. create_dog db dog = (Inr stored, db')"
    if "pk_is_key db \<or> (\<exists>p. pk dog = Some p \<and> p \<noteq> 0)"
    using that by (auto simp: create_dog_unfold next_pk_ints split: option.splits)
  have reads_back: "\<exists>i. pk stored = VInt i
           \<and> get_dog_by_pk db' i = Inr stored
           \<and> name stored = name dog
           \<and> kind stored = VEnum (kind dog)
           \<and> age stored = (case age dog of None \<Rightarrow> VNone | Some a \<Rightarrow> VInt (int a))
           \<and> owner stored = owner dog
           \<and> vaccinated stored = VBool (vaccinated dog)"
    if "create_dog db dog = (Inr stored, db')" for stored db'
    using that
    by (auto simp: create_dog_unfold get_dog_by_pk_def AList.update_conv' Dog_init_def
        split: sum.splits option.splits if_splits)
  have fails: "e = TypeError \<and> db' = db \<and> \<not> pk_is_key db \<and> (pk dog = None \<or> pk dog = Some 0)"
    if "create_dog db dog = (Inl e, db')" for e db'
  proof -
    from that have e: "next_pk db = Inl e" and db': "db' = db"
      and absent: "pk dog = None \<or> pk dog = Some 0"
      by (auto simp: create_dog_unfold split: sum.splits option.splits if_splits)
    from e have "\<not> pk_is_key db" using next_pk_ints [of db] by auto
    with e db' absent next_pk_error [OF e] show ?thesis by simp
  qed
  from succeeds reads_back fails show ?thesis by blast
qed

theorem create_dog_then_get_dog_by_pk_witness:
  "pk_is_key two_dogs
   \<and> create_dog two_dogs rex = (Inr (Dog_init 3 rex), two_dogs @ [(3, Dog_init 3 rex)])
   \<and> get_dog_by_pk (two_dogs @ [(3, Dog_init 3 rex)]) 3 = Inr (Dog_init 3 rex)
   \<and> pk (Dog_init 3 rex) = VInt 3
   \<and> name (Dog_init 3 rex) = ''Rex''
   \<and> kind (Dog_init 3 rex) = VEnum terrier
   \<and> age (Dog_init 3 rex) = VNone
   \<and> owner (Dog_init 3 rex) = None
   \<and> vaccinated (Dog_init 3 rex) = VBool False"
proof -
  have wf: "pk_is_key two_dogs"
    by (simp add: pk_is_key_def two_dogs_def)
  note c8 = create_dog_then_get_dog_by_pk [of two_dogs rex]
  from c8 wf obtain stored db' where created: "create_dog two_dogs rex = (Inr stored, db')"
    by blast
  with c8 have readback: "\<exists>i. pk stored = VInt i \<and> get_dog_by_pk db' i = Inr stored
      \<and> name stored = name rex \<and> kind stored = VEnum (kind rex)
      \<and> age stored = (case age rex of None \<Rightarrow> VNone | Some a \<Rightarrow> VInt (int a))
      \<and> owner stored = owner rex \<and> vaccinated stored = VBool (vaccinated rex)"
    by blast
  have computed: "create_dog two_dogs rex = (Inr (Dog_init 3 rex), two_dogs @ [(3, Dog_init 3 rex)])"
    by (simp add: create_dog_unfold next_pk_def py_max_def py_add1_def two_dogs_def rex_def)
  have "(Inr stored, db') = create_dog two_dogs rex"
    by (rule created [symmetric])
  also note computed
  finally have "stored = Dog_init 3 rex" and "db' = two_dogs @ [(3, Dog_init 3 rex)]"
    by blast+
  with readback wf computed show ?thesis by (auto simp: rex_def)
qed

subsection \<open>C9: filtering by kind\<close>

text \<open>
  C9: \<^verbatim>\<open>get_dogs\<close> is total (it has no failing branch); its answer holds a stored
  instance if and only if the instance's kind equals the given member, as often as the
  dict holds it and in the order of the dict, and is empty when no stored kind equals
  the member.
\<close>

theorem get_dogs_exactly_matching_kind:
  "(dog \<in> set (get_dogs db k) \<longleftrightarrow> dog \<in> set (root db) \<and> kind_eq (kind dog) k)
   \<and> count_list (get_dogs db k) dog = (if kind_eq (kind dog) k then count_list (root db) dog else 0)
   \<and> subseq (get_dogs db k) (root db)
   \<and> ((\<forall>d \<in> set (root db). \<not> kind_eq (kind d) k) \<longrightarrow> get_dogs db k = [])"
proof -
  have "count_list [d \<leftarrow> xs. P d] x = (if P x then count_list xs x else 0)" for P xs and x :: Dog_inst
    by (induction xs) auto
  then show ?thesis
    by (auto simp: get_dogs_def root_def filter_empty_conv)
qed

theorem get_dogs_exactly_matching_kind_witness:
  "list_all (\<lambda>d. \<not> kind_eq (kind d) dalmatian) (root two_dogs)
   \<and> get_dogs two_dogs dalmatian = []
   \<and> set (get_dogs two_dogs terrier) = {Dog_init 1 rex}
   \<and> count_list (get_dogs two_dogs terrier) (Dog_init 1 rex) = 1"
proof -
  have none: "\<forall>d \<in> set (root two_dogs). \<not> kind_eq (kind d) dalmatian"
    by (simp add: root_def two_dogs_def Dog_init_def rex_def buddy_def)
  have empty: "get_dogs two_dogs dalmatian = []"
    using get_dogs_exactly_matching_kind [of _ two_dogs dalmatian] none by blast
  have "d \<in> set (get_dogs two_dogs terrier) \<longleftrightarrow> d = Dog_init 1 rex" for d
    using get_dogs_exactly_matching_kind [of d two_dogs terrier]
    by (auto simp: root_def two_dogs_def Dog_init_def rex_def buddy_def)
  then have one: "set (get_dogs two_dogs terrier) = {Dog_init 1 rex}" by blast
  have cnt: "count_list (get_dogs two_dogs terrier) (Dog_init 1 rex) = 1"
    using get_dogs_exactly_matching_kind [of "Dog_init 1 rex" two_dogs terrier]
    by (simp add: root_def two_dogs_def Dog_init_def rex_def buddy_def)
  from none have listed: "list_all (\<lambda>d. \<not> kind_eq (kind d) dalmatian) (root two_dogs)"
    by (simp add: list_all_iff)
  from listed empty one cnt show ?thesis by blast
qed

subsection \<open>C10: a body with \<^verbatim>\<open>pk\<close> 0\<close>

text \<open>
  On every dict, \<^verbatim>\<open>create_dog\<close> on a body whose \<^verbatim>\<open>pk\<close> is 0 does exactly what it
  does on the same body without \<^verbatim>\<open>pk\<close>; while every instance holds its int key, that
  is to store and return the copy under the greatest key plus 1, or under 1 on the empty
  dict, the 0 being dropped.
\<close>

lemma create_dog_pk_zero_as_absent:
  "create_dog db (dog\<lparr>pk := Some 0\<rparr>) = create_dog db (dog\<lparr>pk := None\<rparr>)
   \<and> (pk_is_key db \<longrightarrow>
        create_dog db (dog\<lparr>pk := Some 0\<rparr>) =
          (let p = (if db = [] then 1 else Max (fst ` set db) + 1)
           in (Inr (Dog_init p dog), AList.update p (Dog_init p dog) db)))"
  by (simp add: create_dog_unfold next_pk_ints Let_def split: sum.splits)

text \<open>
  C10 says that on every dict a body with \<^verbatim>\<open>pk\<close> 0 is given a fresh id. After create
  (id 1) and \<^verbatim>\<open>update_dog(1, {"pk": "7"})\<close> it is given none: the creation takes the
  branch of the absent \<^verbatim>\<open>pk\<close>, computes \<^verbatim>\<open>"7" + 1\<close> and leaves with TypeError,
  nothing stored.
\<close>

theorem create_dog_pk_zero_fails_on_str_pk:
  "run object_attrs [] [Create rex, Update 1 [(''pk'', Some ''7'')], Create (buddy\<lparr>pk := Some 0\<rparr>)]
     = ([Inr (Dog_init 1 rex), Inr ((Dog_init 1 rex)\<lparr>pk := VStr ''7''\<rparr>), Inl TypeError],
        [(1, (Dog_init 1 rex)\<lparr>pk := VStr ''7''\<rparr>)])"
  by (simp add: create_dog_unfold next_pk_def py_max_def py_add1_def rex_def buddy_def
      update_dog_def hasattr_def Dog_fields_def setattr_def)

end
